theory Spec2Isabelle
  imports Main
begin

section \<open>The multi-node launcher front end (dragon/launcher/dragon_multi_fe.py)\<close>

text \<open>
  The module has one function, \<^verbatim>\<open>main\<close>: a retry loop around a
  \<^verbatim>\<open>with LauncherFrontEnd(args_map=args_map) as fe_server:\<close> block that runs three
  phases, and an exception handler that decides between returning the failure exit code
  and going round the loop again. The embedding follows the function line by line:
  exceptions are values of a sum type, the two local variables the handler reads are a
  record, the loop is a recursive function with fuel (the number of passes it may make),
  and every call into the front-end object is recorded as an event.
\<close>

subsection \<open>Data\<close>

text \<open>
  Modelled from the spec: \<^verbatim>\<open>NodeDescriptor.State\<close> (infrastructure/node_desc.py is not
  among the sources). The spec names the two states that count as healthy, \<^verbatim>\<open>ACTIVE\<close>
  and \<^verbatim>\<open>IDLE\<close>, and says that other states exist; they are numbered here.
\<close>

datatype State = ACTIVE | IDLE | OtherState nat

text \<open>Of a node descriptor, \<^verbatim>\<open>main\<close> reads the attribute \<^verbatim>\<open>state\<close> only.\<close>

record NodeDescriptor =
  state :: State

text \<open>
  The network configuration is a dict from node index to descriptor, read through
  \<^verbatim>\<open>net_conf.items()\<close>: an association list in the dict's iteration order. The key of
  the front end is the string \<^verbatim>\<open>'f'\<close> (line 54).
\<close>

type_synonym NetworkConfig = "(string \<times> NodeDescriptor) list"

text \<open>
  Of \<^verbatim>\<open>args_map\<close>, the loop reads \<^verbatim>\<open>args_map['exhaust_resources']\<close> (by truth
  value) and \<^verbatim>\<open>args_map['node_count']\<close> (a Python integer, unbounded).
\<close>

record args_map =
  exhaust_resources :: bool
  node_count :: int

text \<open>
  Exceptions. \<^verbatim>\<open>LauncherError\<close> stands for whatever exception (a subclass of
  \<^verbatim>\<open>Exception\<close>) the front-end object raises; the handler only logs it. The other two
  are raised by the interpreter inside the handler itself: reading the local name
  \<^verbatim>\<open>fe_server\<close> before it was ever assigned, and \<^verbatim>\<open>None.items()\<close>.
\<close>

datatype error = LauncherError string | UnboundLocalError | AttributeError

text \<open>
  Modelled from the spec: the exit codes \<^verbatim>\<open>LAUNCHER_SUCCESS_EXIT\<close> and
  \<^verbatim>\<open>LAUNCHER_FAIL_EXIT\<close> are imported from frontend.py, which is not among the sources;
  the spec says only that they are two distinct integer statuses.
\<close>

datatype exit_status = LAUNCHER_SUCCESS_EXIT | LAUNCHER_FAIL_EXIT

text \<open>
  Modelled from the spec: the class \<^verbatim>\<open>LauncherFrontEnd\<close> (frontend.py is not among the
  sources). The loop uses a readable \<^verbatim>\<open>resilient\<close> flag and three phase operations,
  each of which either raises or returns a network configuration;
  \<^verbatim>\<open>run_startup\<close> takes the configuration carried over (or \<^verbatim>\<open>None\<close>) as its hint.
  Leaving the \<^verbatim>\<open>with\<close> block calls the object's teardown, which is taken to return
  normally and not to swallow the exception in flight.
\<close>

record LauncherFrontEnd =
  resilient :: bool
  run_startup :: "NetworkConfig option \<Rightarrow> error + NetworkConfig"
  run_app :: "error + NetworkConfig"
  run_msg_server :: "error + NetworkConfig"

text \<open>
  \<^verbatim>\<open>LauncherFrontEnd(args_map=args_map)\<close> followed by entering the \<^verbatim>\<open>with\<close> block,
  on the pass of the loop with the given number (counted from 0): it raises, or yields
  the object that \<^verbatim>\<open>fe_server\<close> is bound to.
\<close>

type_synonym launcher = "args_map \<Rightarrow> nat \<Rightarrow> error + LauncherFrontEnd"

text \<open>What the front end observes of one run, in order; the number is the pass of the loop.\<close>

datatype event =
    Acquired nat
  | AcquireFailed nat error
  | RunStartup nat "NetworkConfig option" "error + NetworkConfig"
  | RunApp nat "error + NetworkConfig"
  | RunMsgServer nat "error + NetworkConfig"
  | Released nat

text \<open>
  The local variables of \<^verbatim>\<open>main\<close> that outlive one pass. \<^verbatim>\<open>fe_server = None\<close>
  means that the name is not bound yet; \<^verbatim>\<open>net_conf = None\<close> is Python's \<^verbatim>\<open>None\<close>
  (line 35).
\<close>

record frame =
  fe_server :: "LauncherFrontEnd option"
  net_conf :: "NetworkConfig option"

text \<open>How a pass of the loop ends: a \<^verbatim>\<open>return\<close>, an exception that leaves \<^verbatim>\<open>main\<close>,
  or the loop going round again.\<close>

datatype flow = Return exit_status | Raise error | Continue

subsection \<open>The function main\<close>

text \<open>Lines 53-54: the nodes that are active or idle, the front end's own entry left out.\<close>

definition avail_nodes :: "NetworkConfig \<Rightarrow> int" where
  "avail_nodes nc =
     int (length [idx. (idx, node) \<leftarrow> nc, state node \<in> set [ACTIVE, IDLE] \<and> idx \<noteq> ''f''])"

text \<open>
  Lines 42-44, the body of the \<^verbatim>\<open>with\<close> block: the three phases in order, each
  assigning \<^verbatim>\<open>net_conf\<close>; the first exception ends the body. The result is the
  exception (if any), the value of \<^verbatim>\<open>net_conf\<close> afterwards, and the calls made.
\<close>

definition with_body ::
  "LauncherFrontEnd \<Rightarrow> nat \<Rightarrow> NetworkConfig option \<Rightarrow> error option \<times> NetworkConfig option \<times> event list" where
  "with_body fe i nc =
     (case run_startup fe nc of
        Inl e \<Rightarrow> (Some e, nc, [RunStartup i nc (Inl e)])
      | Inr nc1 \<Rightarrow>
          (case run_app fe of
             Inl e \<Rightarrow> (Some e, Some nc1, [RunStartup i nc (Inr nc1), RunApp i (Inl e)])
           | Inr nc2 \<Rightarrow>
               (case run_msg_server fe of
                  Inl e \<Rightarrow>
                    (Some e, Some nc2,
                     [RunStartup i nc (Inr nc1), RunApp i (Inr nc2), RunMsgServer i (Inl e)])
                | Inr nc3 \<Rightarrow>
                    (None, Some nc3,
                     [RunStartup i nc (Inr nc1), RunApp i (Inr nc2), RunMsgServer i (Inr nc3)]))))"

text \<open>
  Lines 40-44, the \<^verbatim>\<open>try\<close> block. When the object cannot be constructed or entered,
  nothing is assigned: \<^verbatim>\<open>fe_server\<close> keeps whatever it named before. Otherwise
  \<^verbatim>\<open>fe_server\<close> is bound, the body runs, and the block is left through the teardown.
\<close>

definition try_block ::
  "launcher \<Rightarrow> args_map \<Rightarrow> nat \<Rightarrow> frame \<Rightarrow> error option \<times> frame \<times> event list" where
  "try_block new_fe args i st =
     (case new_fe args i of
        Inl e \<Rightarrow> (Some e, st, [AcquireFailed i e])
      | Inr fe \<Rightarrow>
          (case with_body fe i (net_conf st) of
             (r, nc, evs) \<Rightarrow>
               (r, \<lparr>fe_server = Some fe, net_conf = nc\<rparr>, [Acquired i] @ evs @ [Released i])))"

text \<open>
  Lines 47-64, the \<^verbatim>\<open>except Exception\<close> clause. An exception raised here is not inside
  any \<^verbatim>\<open>try\<close>, so it leaves \<^verbatim>\<open>main\<close>. Falling off the end of the clause goes back to
  the loop test, with \<^verbatim>\<open>execution_complete\<close> still false.
\<close>

definition except_handler :: "args_map \<Rightarrow> frame \<Rightarrow> flow" where
  "except_handler args st =
     (case fe_server st of
        None \<Rightarrow> Raise UnboundLocalError
      | Some fe \<Rightarrow>
          if \<not> resilient fe then Return LAUNCHER_FAIL_EXIT
          else
            (case net_conf st of
               None \<Rightarrow> Raise AttributeError
             | Some nc \<Rightarrow>
                 if exhaust_resources args then
                   (if avail_nodes nc = 0 then Return LAUNCHER_FAIL_EXIT else Continue)
                 else if avail_nodes nc = node_count args - 1 then Return LAUNCHER_FAIL_EXIT
                 else Continue))"

text \<open>
  Lines 38-69, one pass of the loop. The \<^verbatim>\<open>else\<close> clause sets
  \<^verbatim>\<open>execution_complete\<close>, the loop test then fails and line 72 returns the success code.
\<close>

definition iteration :: "launcher \<Rightarrow> args_map \<Rightarrow> nat \<Rightarrow> frame \<Rightarrow> flow \<times> frame \<times> event list" where
  "iteration new_fe args i st =
     (case try_block new_fe args i st of
        (None, st', evs) \<Rightarrow> (Return LAUNCHER_SUCCESS_EXIT, st', evs)
      | (Some e, st', evs) \<Rightarrow> (except_handler args st', st', evs))"

text \<open>
  Lines 37-72, the loop. The first argument bounds the number of passes; the result
  \<^verbatim>\<open>None\<close> says that the loop was still running after that many. The events of the
  passes are collected in order.
\<close>

fun main_loop ::
  "nat \<Rightarrow> launcher \<Rightarrow> args_map \<Rightarrow> nat \<Rightarrow> frame \<Rightarrow> event list \<Rightarrow> (error + exit_status) option \<times> event list" where
  "main_loop 0 new_fe args i st tr = (None, tr)"
| "main_loop (Suc n) new_fe args i st tr =
     (case iteration new_fe args i st of
        (Return c, st', evs) \<Rightarrow> (Some (Inr c), tr @ evs)
      | (Raise e, st', evs) \<Rightarrow> (Some (Inl e), tr @ evs)
      | (Continue, st', evs) \<Rightarrow> main_loop n new_fe args (Suc i) st' (tr @ evs))"

text \<open>Lines 34-35: \<^verbatim>\<open>net_conf = None\<close>, and \<^verbatim>\<open>fe_server\<close> not yet bound.\<close>

definition initial_frame :: frame where
  "initial_frame = \<lparr>fe_server = None, net_conf = None\<rparr>"

text \<open>\<^verbatim>\<open>main\<close>, run for at most the given number of passes of its loop.\<close>

definition main :: "launcher \<Rightarrow> args_map \<Rightarrow> nat \<Rightarrow> (error + exit_status) option \<times> event list" where
  "main new_fe args n = main_loop n new_fe args 0 initial_frame []"

text \<open>
  The local variables and the events so far when the loop test is reached for the pass
  with the given number; \<^verbatim>\<open>None\<close> when \<^verbatim>\<open>main\<close> has ended before.
\<close>

fun loop_entry :: "launcher \<Rightarrow> args_map \<Rightarrow> nat \<Rightarrow> (frame \<times> event list) option" where
  "loop_entry new_fe args 0 = Some (initial_frame, [])"
| "loop_entry new_fe args (Suc i) =
     (case loop_entry new_fe args i of
        None \<Rightarrow> None
      | Some (st, tr) \<Rightarrow>
          (case iteration new_fe args i st of
             (Continue, st', evs) \<Rightarrow> Some (st', tr @ evs)
           | (Return c, st', evs) \<Rightarrow> None
           | (Raise e, st', evs) \<Rightarrow> None))"

subsection \<open>Reading a run\<close>

text \<open>
  The configuration most recently returned by a phase call, after one more event; the
  first argument is that configuration before the event (\<^verbatim>\<open>None\<close> when no phase call
  has returned one yet).
\<close>

fun produced :: "NetworkConfig option \<Rightarrow> event \<Rightarrow> NetworkConfig option" where
  "produced c (RunStartup i hint (Inr nc)) = Some nc"
| "produced c (RunApp i (Inr nc)) = Some nc"
| "produced c (RunMsgServer i (Inr nc)) = Some nc"
| "produced c ev = c"

definition last_produced :: "NetworkConfig option \<Rightarrow> event list \<Rightarrow> NetworkConfig option" where
  "last_produced c evs = foldl produced c evs"

text \<open>
  Every \<^verbatim>\<open>run_startup\<close> call of the events was given, as its hint, the configuration
  returned by the last phase call before it that returned one (the first argument when
  there is none).
\<close>

primrec hints_carried :: "NetworkConfig option \<Rightarrow> event list \<Rightarrow> bool" where
  "hints_carried c [] = True"
| "hints_carried c (ev # evs) =
     ((case ev of RunStartup i hint r \<Rightarrow> hint = c | _ \<Rightarrow> True) \<and> hints_carried (produced c ev) evs)"

text \<open>
  A phase event records the call that was made: its result is what the front-end object
  acquired on that pass answers, for \<^verbatim>\<open>run_startup\<close> when called with the recorded hint.
\<close>

fun call_recorded :: "launcher \<Rightarrow> args_map \<Rightarrow> event \<Rightarrow> bool" where
  "call_recorded new_fe args (RunStartup i hint r) =
     (case new_fe args i of Inr fe \<Rightarrow> r = run_startup fe hint | Inl e \<Rightarrow> False)"
| "call_recorded new_fe args (RunApp i r) =
     (case new_fe args i of Inr fe \<Rightarrow> r = run_app fe | Inl e \<Rightarrow> False)"
| "call_recorded new_fe args (RunMsgServer i r) =
     (case new_fe args i of Inr fe \<Rightarrow> r = run_msg_server fe | Inl e \<Rightarrow> False)"
| "call_recorded new_fe args ev = True"

definition calls_recorded :: "launcher \<Rightarrow> args_map \<Rightarrow> event list \<Rightarrow> bool" where
  "calls_recorded new_fe args evs = list_all (call_recorded new_fe args) evs"

text \<open>The phase calls among the events.\<close>

fun is_phase_call :: "event \<Rightarrow> bool" where
  "is_phase_call (RunStartup i hint r) = True"
| "is_phase_call (RunApp i r) = True"
| "is_phase_call (RunMsgServer i r) = True"
| "is_phase_call ev = False"

subsection \<open>Scripted front ends\<close>

text \<open>
  Concrete inputs for evaluating the loop: two network configurations, front-end objects
  whose phases have fixed outcomes, and a launcher that hands out a given list of
  construction outcomes, one per pass.
\<close>

text \<open>Front end, an active node, an idle node and a node in another state: two nodes available.\<close>

definition demo_conf :: NetworkConfig where
  "demo_conf =
     [(''f'', \<lparr>state = ACTIVE\<rparr>), (''0'', \<lparr>state = ACTIVE\<rparr>),
      (''1'', \<lparr>state = IDLE\<rparr>), (''2'', \<lparr>state = OtherState 0\<rparr>)]"

text \<open>Only the front end is active: no node available.\<close>

definition dead_conf :: NetworkConfig where
  "dead_conf = [(''f'', \<lparr>state = ACTIVE\<rparr>), (''0'', \<lparr>state = OtherState 0\<rparr>)]"

text \<open>Front end idle, two nodes idle or active among others: three nodes available.\<close>

definition wide_conf :: NetworkConfig where
  "wide_conf =
     [(''0'', \<lparr>state = IDLE\<rparr>), (''1'', \<lparr>state = OtherState 1\<rparr>), (''f'', \<lparr>state = IDLE\<rparr>),
      (''2'', \<lparr>state = ACTIVE\<rparr>), (''3'', \<lparr>state = ACTIVE\<rparr>)]"

definition scripted_fe ::
  "bool \<Rightarrow> error + NetworkConfig \<Rightarrow> error + NetworkConfig \<Rightarrow> error + NetworkConfig \<Rightarrow> LauncherFrontEnd" where
  "scripted_fe r a b c = \<lparr>resilient = r, run_startup = (\<lambda>hint. a), run_app = b, run_msg_server = c\<rparr>"

definition launch_script :: "(error + LauncherFrontEnd) list \<Rightarrow> launcher" where
  "launch_script fes args i =
     (if i < length fes then fes ! i else Inl (LauncherError ''script exhausted''))"

definition startup_fails :: LauncherFrontEnd where
  "startup_fails = scripted_fe True (Inl (LauncherError ''startup'')) (Inr demo_conf) (Inr demo_conf)"

definition app_fails :: "bool \<Rightarrow> NetworkConfig \<Rightarrow> LauncherFrontEnd" where
  "app_fails r nc = scripted_fe r (Inr nc) (Inl (LauncherError ''app'')) (Inr nc)"

definition msg_server_fails :: LauncherFrontEnd where
  "msg_server_fails = scripted_fe True (Inr demo_conf) (Inr demo_conf) (Inl (LauncherError ''msg''))"

definition all_phases_succeed :: LauncherFrontEnd where
  "all_phases_succeed = scripted_fe True (Inr demo_conf) (Inr demo_conf) (Inr demo_conf)"

text \<open>
  A front end whose \<^verbatim>\<open>run_startup\<close> depends on its hint: it raises without one, and
  otherwise returns the hint with one more idle node.
\<close>

definition startup_extends :: LauncherFrontEnd where
  "startup_extends =
     \<lparr>resilient = True,
      run_startup = (\<lambda>hint. case hint of
                               None \<Rightarrow> Inl (LauncherError ''no hint'')
                             | Some nc \<Rightarrow> Inr (nc @ [(''3'', \<lparr>state = IDLE\<rparr>)])),
      run_app = Inr demo_conf, run_msg_server = Inr dead_conf\<rparr>"

section \<open>Properties\<close>

subsection \<open>One pass of the loop\<close>

lemmas fixture_defs = launch_script_def scripted_fe_def startup_fails_def app_fails_def
  msg_server_fails_def all_phases_succeed_def with_body_def try_block_def iteration_def
  except_handler_def initial_frame_def avail_nodes_def demo_conf_def dead_conf_def

text \<open>
  What lines 53-54 count: the entries whose state is \<^verbatim>\<open>ACTIVE\<close> or \<^verbatim>\<open>IDLE\<close> and whose
  key is not \<^verbatim>\<open>'f'\<close>; with the keys of a dict, which are distinct, the number of such
  keys.
\<close>

lemma avail_nodes_count:
  "avail_nodes nc =
     int (length (filter (\<lambda>(idx, node). state node \<in> {ACTIVE, IDLE} \<and> idx \<noteq> ''f'') nc))"
  unfolding avail_nodes_def by (induction nc) (auto split: if_splits)

lemma avail_nodes_card:
  assumes "distinct (map fst nc)"
  shows "avail_nodes nc = int (card {idx. \<exists>node. (idx, node) \<in> set nc \<and> state node \<in> {ACTIVE, IDLE} \<and> idx \<noteq> ''f''})"
proof -
  let ?P = "\<lambda>(idx, node). state node \<in> {ACTIVE, IDLE} \<and> idx \<noteq> ''f''"
  have d: "distinct (map fst (filter ?P nc))"
    using assms by (rule distinct_map_filter)
  have "{idx. \<exists>node. (idx, node) \<in> set nc \<and> state node \<in> {ACTIVE, IDLE} \<and> idx \<noteq> ''f''} = set (map fst (filter ?P nc))"
    by force
  then show ?thesis
    using distinct_card [OF d] by (simp add: avail_nodes_count)
qed

lemma with_body_cases:
  "with_body fe i nc = (r, nc', evs) \<Longrightarrow>
     (\<exists>e. run_startup fe nc = Inl e \<and> r = Some e \<and> nc' = nc \<and> evs = [RunStartup i nc (Inl e)])
   \<or> (\<exists>nc1 e. run_startup fe nc = Inr nc1 \<and> run_app fe = Inl e \<and> r = Some e \<and> nc' = Some nc1
        \<and> evs = [RunStartup i nc (Inr nc1), RunApp i (Inl e)])
   \<or> (\<exists>nc1 nc2 e. run_startup fe nc = Inr nc1 \<and> run_app fe = Inr nc2 \<and> run_msg_server fe = Inl e
        \<and> r = Some e \<and> nc' = Some nc2
        \<and> evs = [RunStartup i nc (Inr nc1), RunApp i (Inr nc2), RunMsgServer i (Inl e)])
   \<or> (\<exists>nc1 nc2 nc3. run_startup fe nc = Inr nc1 \<and> run_app fe = Inr nc2 \<and> run_msg_server fe = Inr nc3
        \<and> r = None \<and> nc' = Some nc3
        \<and> evs = [RunStartup i nc (Inr nc1), RunApp i (Inr nc2), RunMsgServer i (Inr nc3)])"
  by (auto simp: with_body_def split: sum.splits)

lemma try_block_acquired:
  "new_fe args i = Inr fe \<Longrightarrow> with_body fe i (net_conf st) = (r, nc, evs) \<Longrightarrow>
   try_block new_fe args i st = (r, \<lparr>fe_server = Some fe, net_conf = nc\<rparr>, [Acquired i] @ evs @ [Released i])"
  by (simp add: try_block_def)

lemma try_block_not_acquired:
  "new_fe args i = Inl e \<Longrightarrow> try_block new_fe args i st = (Some e, st, [AcquireFailed i e])"
  by (simp add: try_block_def)

lemma iteration_phase_failure:
  "new_fe args i = Inr fe \<Longrightarrow> with_body fe i (net_conf st) = (Some e, nc, evs) \<Longrightarrow>
   iteration new_fe args i st =
     (except_handler args \<lparr>fe_server = Some fe, net_conf = nc\<rparr>,
      \<lparr>fe_server = Some fe, net_conf = nc\<rparr>, [Acquired i] @ evs @ [Released i])"
  by (simp add: iteration_def try_block_acquired)

lemma iteration_events:
  "snd (snd (iteration new_fe args i st)) = snd (snd (try_block new_fe args i st))"
  by (simp add: iteration_def split: prod.splits option.splits)

lemma with_body_phase_calls:
  "with_body fe i nc = (r, nc', evs) \<Longrightarrow> list_all is_phase_call evs"
  by (auto dest!: with_body_cases)

lemma except_handler_bound:
  "fe_server st = Some fe \<Longrightarrow>
   except_handler args st =
     (if \<not> resilient fe then Return LAUNCHER_FAIL_EXIT
      else (case net_conf st of
              None \<Rightarrow> Raise AttributeError
            | Some nc \<Rightarrow>
                if exhaust_resources args then
                  (if avail_nodes nc = 0 then Return LAUNCHER_FAIL_EXIT else Continue)
                else if avail_nodes nc = node_count args - 1 then Return LAUNCHER_FAIL_EXIT
                else Continue))"
  by (simp add: except_handler_def)

lemma iteration_not_acquired:
  "new_fe args i = Inl e \<Longrightarrow>
   iteration new_fe args i st = (except_handler args st, st, [AcquireFailed i e])"
  by (simp add: iteration_def try_block_not_acquired)

lemma iteration_acquired:
  assumes "new_fe args i = Inr fe" and "iteration new_fe args i st = (f, st', evs)"
  shows "fe_server st' = Some fe \<and> Released i \<in> set evs"
proof -
  obtain r nc evs0 where wb: "with_body fe i (net_conf st) = (r, nc, evs0)"
    by (cases "with_body fe i (net_conf st)") auto
  have "try_block new_fe args i st =
          (r, \<lparr>fe_server = Some fe, net_conf = nc\<rparr>, [Acquired i] @ evs0 @ [Released i])"
    using assms(1) wb by (simp add: try_block_def)
  with assms(2) show ?thesis
    by (auto simp: iteration_def split: option.splits)
qed

lemma continue_needs_resilient:
  assumes "iteration new_fe args i st = (Continue, st', evs)"
  shows "\<exists>fe nc. fe_server st' = Some fe \<and> resilient fe \<and> net_conf st' = Some nc"
proof -
  obtain e where tb: "try_block new_fe args i st = (Some e, st', evs)"
    and eh: "except_handler args st' = Continue"
    using assms by (auto simp: iteration_def split: prod.splits option.splits)
  from eh show ?thesis
    by (auto simp: except_handler_def split: option.splits if_splits)
qed

subsection \<open>The decision after a phase failure\<close>

text \<open>
  Claim C5. When the front-end object acquired on a pass is not resilient and one of
  its phases raises, the pass ends with \<^verbatim>\<open>return LAUNCHER_FAIL_EXIT\<close> and \<^verbatim>\<open>main\<close>
  returns that code at once, whatever \<^verbatim>\<open>net_conf\<close> holds (also \<^verbatim>\<open>None\<close>) and
  whatever the arguments are: the count of available nodes is never computed.
\<close>

theorem non_resilient_failure_aborts:
  assumes "new_fe args i = Inr fe" and "\<not> resilient fe"
    and "with_body fe i (net_conf st) = (Some e, nc, evs)"
  shows "iteration new_fe args i st =
           (Return LAUNCHER_FAIL_EXIT, \<lparr>fe_server = Some fe, net_conf = nc\<rparr>,
            [Acquired i] @ evs @ [Released i])
       \<and> main_loop (Suc n) new_fe args i st tr =
           (Some (Inr LAUNCHER_FAIL_EXIT), tr @ [Acquired i] @ evs @ [Released i])"
proof -
  have it: "iteration new_fe args i st =
           (Return LAUNCHER_FAIL_EXIT, \<lparr>fe_server = Some fe, net_conf = nc\<rparr>,
            [Acquired i] @ evs @ [Released i])"
    using assms by (simp add: iteration_phase_failure except_handler_def)
  show ?thesis
    by (simp add: it)
qed

text \<open>
  The theorem at a run whose only front end is not resilient and fails in
  \<^verbatim>\<open>run_app\<close> while both requested nodes are available, in either mode.
\<close>

theorem non_resilient_failure_aborts_witness:
  "avail_nodes demo_conf = 2
   \<and> main (launch_script [Inr (app_fails False demo_conf)]) \<lparr>exhaust_resources = False, node_count = 2\<rparr> (Suc 0) =
       (Some (Inr LAUNCHER_FAIL_EXIT),
        [Acquired 0, RunStartup 0 None (Inr demo_conf), RunApp 0 (Inl (LauncherError ''app'')), Released 0])
   \<and> main (launch_script [Inr (app_fails False demo_conf)]) \<lparr>exhaust_resources = True, node_count = 2\<rparr> (Suc 0) =
       (Some (Inr LAUNCHER_FAIL_EXIT),
        [Acquired 0, RunStartup 0 None (Inr demo_conf), RunApp 0 (Inl (LauncherError ''app'')), Released 0])"
proof -
  have a: "launch_script [Inr (app_fails False demo_conf)] args 0 = Inr (app_fails False demo_conf)" for args
    by (simp add: launch_script_def)
  have r: "\<not> resilient (app_fails False demo_conf)"
    by (simp add: app_fails_def scripted_fe_def)
  have b: "with_body (app_fails False demo_conf) 0 (net_conf initial_frame) =
             (Some (LauncherError ''app''), Some demo_conf,
              [RunStartup 0 None (Inr demo_conf), RunApp 0 (Inl (LauncherError ''app''))])"
    by (simp add: with_body_def app_fails_def scripted_fe_def initial_frame_def)
  have n: "avail_nodes demo_conf = 2"
    by (simp add: avail_nodes_def demo_conf_def)
  note t = non_resilient_failure_aborts [where new_fe = "launch_script [Inr (app_fails False demo_conf)]"
      and i = 0 and fe = "app_fails False demo_conf" and st = initial_frame
      and e = "LauncherError ''app''" and nc = "Some demo_conf"
      and evs = "[RunStartup 0 None (Inr demo_conf), RunApp 0 (Inl (LauncherError ''app''))]"
      and n = 0 and tr = "[]", OF a r b]
  show ?thesis
    using t [of "\<lparr>exhaust_resources = False, node_count = 2\<rparr>"]
      t [of "\<lparr>exhaust_resources = True, node_count = 2\<rparr>"]
    by (simp add: n main_def initial_frame_def)
qed

text \<open>
  Claim C2. Threshold mode (\<^verbatim>\<open>exhaust_resources\<close> false): when a phase of a resilient
  front end raises and \<^verbatim>\<open>net_conf\<close> holds a configuration, the pass returns
  \<^verbatim>\<open>LAUNCHER_FAIL_EXIT\<close> exactly when the number of entries of the configuration whose
  state is \<^verbatim>\<open>ACTIVE\<close> or \<^verbatim>\<open>IDLE\<close> and whose key is not \<^verbatim>\<open>'f'\<close> equals
  \<^verbatim>\<open>node_count - 1\<close>; for every other number, smaller or larger, the loop goes on with
  the next pass, carrying the configuration.
\<close>

theorem threshold_mode_abort_iff:
  assumes "new_fe args i = Inr fe" and "resilient fe"
    and "with_body fe i (net_conf st) = (Some e, Some nc, evs)"
    and "\<not> exhaust_resources args"
    and "avail = int (length (filter (\<lambda>(idx, node). state node \<in> {ACTIVE, IDLE} \<and> idx \<noteq> ''f'') nc))"
  shows "avail_nodes nc = avail
       \<and> iteration new_fe args i st =
           (if avail = node_count args - 1 then Return LAUNCHER_FAIL_EXIT else Continue,
            \<lparr>fe_server = Some fe, net_conf = Some nc\<rparr>, [Acquired i] @ evs @ [Released i])
       \<and> main_loop (Suc n) new_fe args i st tr =
           (if avail = node_count args - 1
            then (Some (Inr LAUNCHER_FAIL_EXIT), tr @ [Acquired i] @ evs @ [Released i])
            else main_loop n new_fe args (Suc i) \<lparr>fe_server = Some fe, net_conf = Some nc\<rparr>
                   (tr @ [Acquired i] @ evs @ [Released i]))"
proof -
  have av: "avail_nodes nc = avail"
    using assms(5) by (simp add: avail_nodes_count)
  have it: "iteration new_fe args i st =
           (if avail = node_count args - 1 then Return LAUNCHER_FAIL_EXIT else Continue,
            \<lparr>fe_server = Some fe, net_conf = Some nc\<rparr>, [Acquired i] @ evs @ [Released i])"
    using assms(1-4) by (simp add: iteration_phase_failure except_handler_def av)
  show ?thesis
    by (simp add: it av)
qed

text \<open>
  The theorem at three configurations. Two nodes available: \<^verbatim>\<open>node_count\<close> 3 aborts,
  \<^verbatim>\<open>node_count\<close> 5 (fewer nodes than the threshold) and \<^verbatim>\<open>node_count\<close> 2 (all nodes
  available) retry. Three available among five entries: \<^verbatim>\<open>node_count\<close> 4 aborts and
  \<^verbatim>\<open>node_count\<close> 5 retries. None available although the front end's own entry is
  active: \<^verbatim>\<open>node_count\<close> 1 aborts and \<^verbatim>\<open>node_count\<close> 2 retries.
\<close>

theorem threshold_mode_abort_iff_witness:
  "int (length (filter (\<lambda>(idx, node). state node \<in> {ACTIVE, IDLE} \<and> idx \<noteq> ''f'') demo_conf)) = 2
   \<and> fst (iteration (launch_script [Inr (app_fails True demo_conf)]) \<lparr>exhaust_resources = False, node_count = 3\<rparr> 0 initial_frame)
     = Return LAUNCHER_FAIL_EXIT
   \<and> int (length (filter (\<lambda>(idx, node). state node \<in> {ACTIVE, IDLE} \<and> idx \<noteq> ''f'') demo_conf)) = 2
   \<and> fst (iteration (launch_script [Inr (app_fails True demo_conf)]) \<lparr>exhaust_resources = False, node_count = 5\<rparr> 0 initial_frame)
     = Continue
   \<and> int (length (filter (\<lambda>(idx, node). state node \<in> {ACTIVE, IDLE} \<and> idx \<noteq> ''f'') demo_conf)) = 2
   \<and> fst (iteration (launch_script [Inr (app_fails True demo_conf)]) \<lparr>exhaust_resources = False, node_count = 2\<rparr> 0 initial_frame)
     = Continue
   \<and> int (length (filter (\<lambda>(idx, node). state node \<in> {ACTIVE, IDLE} \<and> idx \<noteq> ''f'') wide_conf)) = 3
   \<and> fst (iteration (launch_script [Inr (app_fails True wide_conf)]) \<lparr>exhaust_resources = False, node_count = 4\<rparr> 0 initial_frame)
     = Return LAUNCHER_FAIL_EXIT
   \<and> int (length (filter (\<lambda>(idx, node). state node \<in> {ACTIVE, IDLE} \<and> idx \<noteq> ''f'') wide_conf)) = 3
   \<and> fst (iteration (launch_script [Inr (app_fails True wide_conf)]) \<lparr>exhaust_resources = False, node_count = 5\<rparr> 0 initial_frame)
     = Continue
   \<and> int (length (filter (\<lambda>(idx, node). state node \<in> {ACTIVE, IDLE} \<and> idx \<noteq> ''f'') dead_conf)) = 0
   \<and> fst (iteration (launch_script [Inr (app_fails True dead_conf)]) \<lparr>exhaust_resources = False, node_count = 1\<rparr> 0 initial_frame)
     = Return LAUNCHER_FAIL_EXIT
   \<and> int (length (filter (\<lambda>(idx, node). state node \<in> {ACTIVE, IDLE} \<and> idx \<noteq> ''f'') dead_conf)) = 0
   \<and> fst (iteration (launch_script [Inr (app_fails True dead_conf)]) \<lparr>exhaust_resources = False, node_count = 2\<rparr> 0 initial_frame)
     = Continue"
proof -
  have a: "launch_script [Inr (app_fails True nc)] args 0 = Inr (app_fails True nc)" for args nc
    by (simp add: launch_script_def)
  have r: "resilient (app_fails True nc)" for nc
    by (simp add: app_fails_def scripted_fe_def)
  have b: "with_body (app_fails True nc) 0 (net_conf initial_frame) =
             (Some (LauncherError ''app''), Some nc,
              [RunStartup 0 None (Inr nc), RunApp 0 (Inl (LauncherError ''app''))])" for nc
    by (simp add: with_body_def app_fails_def scripted_fe_def initial_frame_def)
  have c_demo_conf: "int (length (filter (\<lambda>(idx, node). state node \<in> {ACTIVE, IDLE} \<and> idx \<noteq> ''f'') demo_conf)) = 2"
    by (simp add: demo_conf_def)
  have c_wide_conf: "int (length (filter (\<lambda>(idx, node). state node \<in> {ACTIVE, IDLE} \<and> idx \<noteq> ''f'') wide_conf)) = 3"
    by (simp add: wide_conf_def)
  have c_dead_conf: "int (length (filter (\<lambda>(idx, node). state node \<in> {ACTIVE, IDLE} \<and> idx \<noteq> ''f'') dead_conf)) = 0"
    by (simp add: dead_conf_def)
  have t: "fst (iteration (launch_script [Inr (app_fails True nc)]) args 0 initial_frame) =
        (if avail = node_count args - 1 then Return LAUNCHER_FAIL_EXIT else Continue)"
    if "\<not> exhaust_resources args"
      and "int (length (filter (\<lambda>(idx, node). state node \<in> {ACTIVE, IDLE} \<and> idx \<noteq> ''f'') nc)) = avail"
    for args avail nc
    using threshold_mode_abort_iff [where new_fe = "launch_script [Inr (app_fails True nc)]"
        and args = args and i = 0 and fe = "app_fails True nc" and st = initial_frame
        and e = "LauncherError ''app''" and nc = nc
        and evs = "[RunStartup 0 None (Inr nc), RunApp 0 (Inl (LauncherError ''app''))]"
        and avail = avail and n = 0 and tr = "[]", OF a r b that(1) that(2) [symmetric]]
    by simp
  show ?thesis
    using c_demo_conf c_wide_conf c_dead_conf
      t [where args = "\<lparr>exhaust_resources = False, node_count = 3\<rparr>", OF _ c_demo_conf]
      t [where args = "\<lparr>exhaust_resources = False, node_count = 5\<rparr>", OF _ c_demo_conf]
      t [where args = "\<lparr>exhaust_resources = False, node_count = 2\<rparr>", OF _ c_demo_conf]
      t [where args = "\<lparr>exhaust_resources = False, node_count = 4\<rparr>", OF _ c_wide_conf]
      t [where args = "\<lparr>exhaust_resources = False, node_count = 5\<rparr>", OF _ c_wide_conf]
      t [where args = "\<lparr>exhaust_resources = False, node_count = 1\<rparr>", OF _ c_dead_conf]
      t [where args = "\<lparr>exhaust_resources = False, node_count = 2\<rparr>", OF _ c_dead_conf]
    by simp
qed

text \<open>
  Claim C6. Exhaust-resources mode: when a phase of a resilient front end raises and
  \<^verbatim>\<open>net_conf\<close> holds a configuration, the pass returns \<^verbatim>\<open>LAUNCHER_FAIL_EXIT\<close>
  exactly when the configuration has no entry whose state is \<^verbatim>\<open>ACTIVE\<close> or \<^verbatim>\<open>IDLE\<close>
  and whose key is not \<^verbatim>\<open>'f'\<close>; with one or more the loop goes on with the next
  pass. \<^verbatim>\<open>node_count\<close> does not occur in the outcome.
\<close>

theorem exhaust_mode_abort_iff:
  assumes "new_fe args i = Inr fe" and "resilient fe"
    and "with_body fe i (net_conf st) = (Some e, Some nc, evs)"
    and "exhaust_resources args"
    and "avail = int (length (filter (\<lambda>(idx, node). state node \<in> {ACTIVE, IDLE} \<and> idx \<noteq> ''f'') nc))"
  shows "avail_nodes nc = avail
       \<and> iteration new_fe args i st =
           (if avail = 0 then Return LAUNCHER_FAIL_EXIT else Continue,
            \<lparr>fe_server = Some fe, net_conf = Some nc\<rparr>, [Acquired i] @ evs @ [Released i])
       \<and> main_loop (Suc n) new_fe args i st tr =
           (if avail = 0
            then (Some (Inr LAUNCHER_FAIL_EXIT), tr @ [Acquired i] @ evs @ [Released i])
            else main_loop n new_fe args (Suc i) \<lparr>fe_server = Some fe, net_conf = Some nc\<rparr>
                   (tr @ [Acquired i] @ evs @ [Released i]))"
proof -
  have av: "avail_nodes nc = avail"
    using assms(5) by (simp add: avail_nodes_count)
  have it: "iteration new_fe args i st =
           (if avail = 0 then Return LAUNCHER_FAIL_EXIT else Continue,
            \<lparr>fe_server = Some fe, net_conf = Some nc\<rparr>, [Acquired i] @ evs @ [Released i])"
    using assms(1-4) by (simp add: iteration_phase_failure except_handler_def av)
  show ?thesis
    by (simp add: it av)
qed

text \<open>
  The theorem with no node available (abort, although the front end's own entry is
  active), with two and with three available (retry, also where the number equals
  \<^verbatim>\<open>node_count - 1\<close>).
\<close>

theorem exhaust_mode_abort_iff_witness:
  "int (length (filter (\<lambda>(idx, node). state node \<in> {ACTIVE, IDLE} \<and> idx \<noteq> ''f'') dead_conf)) = 0
   \<and> fst (iteration (launch_script [Inr (app_fails True dead_conf)]) \<lparr>exhaust_resources = True, node_count = 2\<rparr> 0 initial_frame)
     = Return LAUNCHER_FAIL_EXIT
   \<and> int (length (filter (\<lambda>(idx, node). state node \<in> {ACTIVE, IDLE} \<and> idx \<noteq> ''f'') demo_conf)) = 2
   \<and> fst (iteration (launch_script [Inr (app_fails True demo_conf)]) \<lparr>exhaust_resources = True, node_count = 3\<rparr> 0 initial_frame)
     = Continue
   \<and> int (length (filter (\<lambda>(idx, node). state node \<in> {ACTIVE, IDLE} \<and> idx \<noteq> ''f'') wide_conf)) = 3
   \<and> fst (iteration (launch_script [Inr (app_fails True wide_conf)]) \<lparr>exhaust_resources = True, node_count = 4\<rparr> 0 initial_frame)
     = Continue"
proof -
  have a: "launch_script [Inr (app_fails True nc)] args 0 = Inr (app_fails True nc)" for args nc
    by (simp add: launch_script_def)
  have r: "resilient (app_fails True nc)" for nc
    by (simp add: app_fails_def scripted_fe_def)
  have b: "with_body (app_fails True nc) 0 (net_conf initial_frame) =
             (Some (LauncherError ''app''), Some nc,
              [RunStartup 0 None (Inr nc), RunApp 0 (Inl (LauncherError ''app''))])" for nc
    by (simp add: with_body_def app_fails_def scripted_fe_def initial_frame_def)
  have c_dead_conf: "int (length (filter (\<lambda>(idx, node). state node \<in> {ACTIVE, IDLE} \<and> idx \<noteq> ''f'') dead_conf)) = 0"
    by (simp add: dead_conf_def)
  have c_demo_conf: "int (length (filter (\<lambda>(idx, node). state node \<in> {ACTIVE, IDLE} \<and> idx \<noteq> ''f'') demo_conf)) = 2"
    by (simp add: demo_conf_def)
  have c_wide_conf: "int (length (filter (\<lambda>(idx, node). state node \<in> {ACTIVE, IDLE} \<and> idx \<noteq> ''f'') wide_conf)) = 3"
    by (simp add: wide_conf_def)
  have t: "fst (iteration (launch_script [Inr (app_fails True nc)]) args 0 initial_frame) =
        (if avail = 0 then Return LAUNCHER_FAIL_EXIT else Continue)"
    if "exhaust_resources args"
      and "int (length (filter (\<lambda>(idx, node). state node \<in> {ACTIVE, IDLE} \<and> idx \<noteq> ''f'') nc)) = avail"
    for args avail nc
    using exhaust_mode_abort_iff [where new_fe = "launch_script [Inr (app_fails True nc)]"
        and args = args and i = 0 and fe = "app_fails True nc" and st = initial_frame
        and e = "LauncherError ''app''" and nc = nc
        and evs = "[RunStartup 0 None (Inr nc), RunApp 0 (Inl (LauncherError ''app''))]"
        and avail = avail and n = 0 and tr = "[]", OF a r b that(1) that(2) [symmetric]]
    by simp
  show ?thesis
    using c_dead_conf c_demo_conf c_wide_conf
      t [where args = "\<lparr>exhaust_resources = True, node_count = 2\<rparr>", OF _ c_dead_conf]
      t [where args = "\<lparr>exhaust_resources = True, node_count = 3\<rparr>", OF _ c_demo_conf]
      t [where args = "\<lparr>exhaust_resources = True, node_count = 4\<rparr>", OF _ c_wide_conf]
    by simp
qed

subsection \<open>The session within one pass\<close>

text \<open>
  Claim C8. On a pass that acquires its front-end object, the events of the pass are
  the acquisition, then phase calls only, then the release: the object is released
  exactly once, as the last thing the pass does, whichever phase raises or none.
\<close>

theorem release_exactly_once:
  assumes "new_fe args i = Inr fe"
  shows "\<exists>evs. snd (snd (iteration new_fe args i st)) = Acquired i # evs @ [Released i]
           \<and> list_all is_phase_call evs"
proof -
  obtain r nc evs where wb: "with_body fe i (net_conf st) = (r, nc, evs)"
    by (cases "with_body fe i (net_conf st)") auto
  have "snd (snd (iteration new_fe args i st)) = Acquired i # evs @ [Released i]"
    using assms wb by (simp add: iteration_events try_block_acquired)
  moreover have "list_all is_phase_call evs"
    using wb by (rule with_body_phase_calls)
  ultimately show ?thesis by blast
qed

text \<open>
  The theorem on the four ways through the block: \<^verbatim>\<open>run_startup\<close> raises,
  \<^verbatim>\<open>run_app\<close> raises, \<^verbatim>\<open>run_msg_server\<close> raises, all three return.
\<close>

theorem release_exactly_once_witness:
  "(\<exists>evs. snd (snd (iteration (launch_script [Inr startup_fails]) \<lparr>exhaust_resources = False, node_count = 3\<rparr> 0 initial_frame))
            = Acquired 0 # evs @ [Released 0] \<and> list_all is_phase_call evs)
   \<and> (\<exists>evs. snd (snd (iteration (launch_script [Inr (app_fails True demo_conf)]) \<lparr>exhaust_resources = False, node_count = 3\<rparr> 0 initial_frame))
            = Acquired 0 # evs @ [Released 0] \<and> list_all is_phase_call evs)
   \<and> (\<exists>evs. snd (snd (iteration (launch_script [Inr msg_server_fails]) \<lparr>exhaust_resources = False, node_count = 3\<rparr> 0 initial_frame))
            = Acquired 0 # evs @ [Released 0] \<and> list_all is_phase_call evs)
   \<and> (\<exists>evs. snd (snd (iteration (launch_script [Inr all_phases_succeed]) \<lparr>exhaust_resources = False, node_count = 3\<rparr> 0 initial_frame))
            = Acquired 0 # evs @ [Released 0] \<and> list_all is_phase_call evs)"
proof -
  have a: "launch_script [Inr fe] args 0 = Inr fe" for args fe
    by (simp add: launch_script_def)
  have r: "\<exists>evs. snd (snd (iteration (launch_script [Inr fe]) args 0 initial_frame))
              = Acquired 0 # evs @ [Released 0] \<and> list_all is_phase_call evs" for args fe
    using release_exactly_once [where new_fe = "launch_script [Inr fe]" and args = args and i = 0
        and fe = fe and st = initial_frame, OF a] .
  show ?thesis
    using r [of startup_fails] r [of "app_fails True demo_conf"] r [of msg_server_fails]
      r [of all_phases_succeed]
    by blast
qed

text \<open>
  Claim C10. On a pass that acquires its front-end object: if \<^verbatim>\<open>run_startup\<close>
  raises, the pass makes no other phase call; if \<^verbatim>\<open>run_startup\<close> returns and
  \<^verbatim>\<open>run_app\<close> raises, \<^verbatim>\<open>run_msg_server\<close> is not called.
\<close>

theorem no_phase_after_failing_phase:
  assumes "new_fe args i = Inr fe"
  shows "(run_startup fe (net_conf st) = Inl e \<longrightarrow>
            snd (snd (iteration new_fe args i st)) =
              [Acquired i, RunStartup i (net_conf st) (Inl e), Released i])
       \<and> (run_startup fe (net_conf st) = Inr nc \<and> run_app fe = Inl e \<longrightarrow>
            snd (snd (iteration new_fe args i st)) =
              [Acquired i, RunStartup i (net_conf st) (Inr nc), RunApp i (Inl e), Released i])"
  using assms by (simp add: iteration_events try_block_def with_body_def)

text \<open>
  The theorem at a front end whose \<^verbatim>\<open>run_startup\<close> raises and at one whose
  \<^verbatim>\<open>run_app\<close> raises.
\<close>

theorem no_phase_after_failing_phase_witness:
  "snd (snd (iteration (launch_script [Inr startup_fails]) \<lparr>exhaust_resources = False, node_count = 3\<rparr> 0 initial_frame))
     = [Acquired 0, RunStartup 0 None (Inl (LauncherError ''startup'')), Released 0]
   \<and> snd (snd (iteration (launch_script [Inr (app_fails True demo_conf)]) \<lparr>exhaust_resources = False, node_count = 3\<rparr> 0 initial_frame))
     = [Acquired 0, RunStartup 0 None (Inr demo_conf), RunApp 0 (Inl (LauncherError ''app'')), Released 0]"
proof -
  have a: "launch_script [Inr fe] args 0 = Inr fe" for args fe
    by (simp add: launch_script_def)
  have s: "run_startup startup_fails (net_conf initial_frame) = Inl (LauncherError ''startup'')"
    by (simp add: startup_fails_def scripted_fe_def)
  have p: "run_startup (app_fails True demo_conf) (net_conf initial_frame) = Inr demo_conf
           \<and> run_app (app_fails True demo_conf) = Inl (LauncherError ''app'')"
    by (simp add: app_fails_def scripted_fe_def)
  have i: "net_conf initial_frame = None"
    by (simp add: initial_frame_def)
  note t = no_phase_after_failing_phase [where i = 0 and st = initial_frame
      and args = "\<lparr>exhaust_resources = False, node_count = 3\<rparr>"]
  show ?thesis
    using t [where new_fe = "launch_script [Inr startup_fails]" and fe = startup_fails
        and e = "LauncherError ''startup''" and nc = demo_conf, OF a] s
      t [where new_fe = "launch_script [Inr (app_fails True demo_conf)]" and fe = "app_fails True demo_conf"
        and e = "LauncherError ''app''" and nc = demo_conf, OF a] p
    by (simp add: i)
qed

subsection \<open>The configuration carried from pass to pass\<close>

lemma last_produced_append:
  "last_produced c (xs @ ys) = last_produced (last_produced c xs) ys"
  by (simp add: last_produced_def)

lemma hints_carried_append:
  "hints_carried c (xs @ ys) = (hints_carried c xs \<and> hints_carried (last_produced c xs) ys)"
  by (induction xs arbitrary: c) (auto simp: last_produced_def)

lemma with_body_hints:
  "with_body fe i nc = (r, nc', evs) \<Longrightarrow> hints_carried nc evs \<and> last_produced nc evs = nc'"
  by (auto dest!: with_body_cases simp: last_produced_def)

lemma try_block_hints:
  assumes "try_block new_fe args i st = (r, st', evs)"
  shows "hints_carried (net_conf st) evs \<and> last_produced (net_conf st) evs = net_conf st'"
proof (cases "new_fe args i")
  case (Inl e)
  with assms show ?thesis by (auto simp: try_block_def last_produced_def)
next
  case (Inr fe)
  obtain r0 nc evs0 where wb: "with_body fe i (net_conf st) = (r0, nc, evs0)"
    by (cases "with_body fe i (net_conf st)") auto
  from with_body_hints [OF wb] have h: "hints_carried (net_conf st) evs0" "last_produced (net_conf st) evs0 = nc"
    by simp_all
  have "evs = Acquired i # evs0 @ [Released i]" "net_conf st' = nc"
    using assms Inr wb by (auto simp: try_block_def)
  then show ?thesis using h
    by (simp add: hints_carried_append last_produced_def)
qed

lemma iteration_hints:
  assumes "iteration new_fe args i st = (f, st', evs)"
  shows "hints_carried (net_conf st) evs \<and> last_produced (net_conf st) evs = net_conf st'"
proof -
  obtain r where "try_block new_fe args i st = (r, st', evs)"
    using assms by (auto simp: iteration_def split: prod.splits option.splits)
  then show ?thesis by (rule try_block_hints)
qed

lemma main_loop_hints:
  "hints_carried c tr \<Longrightarrow> last_produced c tr = net_conf st \<Longrightarrow>
   hints_carried c (snd (main_loop n new_fe args i st tr))"
proof (induction n arbitrary: i st tr)
  case 0
  then show ?case by simp
next
  case (Suc n)
  obtain f st' evs where it: "iteration new_fe args i st = (f, st', evs)"
    by (cases "iteration new_fe args i st") auto
  from iteration_hints [OF it] Suc.prems
  have ok: "hints_carried c (tr @ evs)" and lp: "last_produced c (tr @ evs) = net_conf st'"
    by (simp_all add: hints_carried_append last_produced_append)
  show ?case
  proof (cases f)
    case (Return x)
    with it ok show ?thesis by simp
  next
    case (Raise x)
    with it ok show ?thesis by simp
  next
    case Continue
    with it Suc.IH [OF ok lp] show ?thesis by simp
  qed
qed

lemma calls_recorded_append:
  "calls_recorded new_fe args (xs @ ys) = (calls_recorded new_fe args xs \<and> calls_recorded new_fe args ys)"
  by (simp add: calls_recorded_def)

lemma with_body_recorded:
  "new_fe args i = Inr fe \<Longrightarrow> with_body fe i nc = (r, nc', evs) \<Longrightarrow> calls_recorded new_fe args evs"
  by (auto dest!: with_body_cases simp: calls_recorded_def)

lemma try_block_recorded:
  assumes "try_block new_fe args i st = (r, st', evs)"
  shows "calls_recorded new_fe args evs"
proof (cases "new_fe args i")
  case (Inl e)
  with assms show ?thesis by (auto simp: try_block_def calls_recorded_def)
next
  case (Inr fe)
  obtain r0 nc evs0 where wb: "with_body fe i (net_conf st) = (r0, nc, evs0)"
    by (cases "with_body fe i (net_conf st)") auto
  have "evs = Acquired i # evs0 @ [Released i]"
    using assms Inr wb by (auto simp: try_block_def)
  moreover have "calls_recorded new_fe args evs0"
    using Inr wb by (rule with_body_recorded)
  ultimately show ?thesis
    by (simp add: calls_recorded_def)
qed

lemma iteration_recorded:
  assumes "iteration new_fe args i st = (f, st', evs)"
  shows "calls_recorded new_fe args evs"
proof -
  obtain r where "try_block new_fe args i st = (r, st', evs)"
    using assms by (auto simp: iteration_def split: prod.splits option.splits)
  then show ?thesis by (rule try_block_recorded)
qed

lemma main_loop_recorded:
  "calls_recorded new_fe args tr \<Longrightarrow> calls_recorded new_fe args (snd (main_loop n new_fe args i st tr))"
proof (induction n arbitrary: i st tr)
  case 0
  then show ?case by simp
next
  case (Suc n)
  obtain f st' evs where it: "iteration new_fe args i st = (f, st', evs)"
    by (cases "iteration new_fe args i st") auto
  from iteration_recorded [OF it] Suc.prems
  have ok: "calls_recorded new_fe args (tr @ evs)"
    by (simp add: calls_recorded_append)
  show ?case
  proof (cases f)
    case (Return x)
    with it ok show ?thesis by simp
  next
    case (Raise x)
    with it ok show ?thesis by simp
  next
    case Continue
    with it Suc.IH [OF ok] show ?thesis by simp
  qed
qed

text \<open>
  Claim C7. In every run of \<^verbatim>\<open>main\<close>, of any length: each recorded phase result is what
  the front-end object of that pass answers, for \<^verbatim>\<open>run_startup\<close> when called with the
  recorded hint; and the hint of each \<^verbatim>\<open>run_startup\<close> call is the configuration returned
  by the last phase call before it that returned one, \<^verbatim>\<open>None\<close> when no phase call has
  returned one yet. So the first \<^verbatim>\<open>run_startup\<close> after a retry is called with what the
  last successful phase call before the failure returned.
\<close>

theorem retry_hint_is_last_configuration:
  "calls_recorded new_fe args (snd (main new_fe args n))
   \<and> hints_carried None (snd (main new_fe args n))"
proof
  show "calls_recorded new_fe args (snd (main new_fe args n))"
    unfolding main_def by (rule main_loop_recorded) (simp add: calls_recorded_def)
  show "hints_carried None (snd (main new_fe args n))"
    unfolding main_def by (rule main_loop_hints) (simp_all add: last_produced_def initial_frame_def)
qed

text \<open>
  The theorem at a run of two passes: \<^verbatim>\<open>run_app\<close> raises on the first, the loop
  retries, and the second \<^verbatim>\<open>run_startup\<close>, which raises when called without a hint, is
  called with what the first one returned and answers from it.
\<close>

theorem retry_hint_is_last_configuration_witness:
  "calls_recorded (launch_script [Inr (app_fails True demo_conf), Inr startup_extends])
     \<lparr>exhaust_resources = True, node_count = 3\<rparr>
     (snd (main (launch_script [Inr (app_fails True demo_conf), Inr startup_extends])
             \<lparr>exhaust_resources = True, node_count = 3\<rparr> (Suc (Suc 0))))
   \<and> hints_carried None
     (snd (main (launch_script [Inr (app_fails True demo_conf), Inr startup_extends])
             \<lparr>exhaust_resources = True, node_count = 3\<rparr> (Suc (Suc 0))))
   \<and> main (launch_script [Inr (app_fails True demo_conf), Inr startup_extends])
             \<lparr>exhaust_resources = True, node_count = 3\<rparr> (Suc (Suc 0)) =
       (Some (Inr LAUNCHER_SUCCESS_EXIT),
        [Acquired 0, RunStartup 0 None (Inr demo_conf), RunApp 0 (Inl (LauncherError ''app'')), Released 0,
         Acquired (Suc 0),
         RunStartup (Suc 0) (Some demo_conf) (Inr (demo_conf @ [(''3'', \<lparr>state = IDLE\<rparr>)])),
         RunApp (Suc 0) (Inr demo_conf), RunMsgServer (Suc 0) (Inr dead_conf), Released (Suc 0)])
   \<and> run_startup startup_extends None = Inl (LauncherError ''no hint'')"
proof -
  let ?l = "launch_script [Inr (app_fails True demo_conf), Inr startup_extends]"
  let ?a = "\<lparr>exhaust_resources = True, node_count = 3\<rparr>"
  have m: "main ?l ?a (Suc (Suc 0)) =
       (Some (Inr LAUNCHER_SUCCESS_EXIT),
        [Acquired 0, RunStartup 0 None (Inr demo_conf), RunApp 0 (Inl (LauncherError ''app'')), Released 0,
         Acquired (Suc 0),
         RunStartup (Suc 0) (Some demo_conf) (Inr (demo_conf @ [(''3'', \<lparr>state = IDLE\<rparr>)])),
         RunApp (Suc 0) (Inr demo_conf), RunMsgServer (Suc 0) (Inr dead_conf), Released (Suc 0)])"
    by (simp add: main_def fixture_defs startup_extends_def)
  have s: "run_startup startup_extends None = Inl (LauncherError ''no hint'')"
    by (simp add: startup_extends_def)
  from retry_hint_is_last_configuration [of ?l ?a "Suc (Suc 0)"] m s
  show ?thesis by simp
qed

subsection \<open>Failure to construct the front-end object\<close>

lemma loop_entry_Suc:
  assumes "loop_entry new_fe args (Suc i) = Some (st', tr')"
  obtains st tr evs where "loop_entry new_fe args i = Some (st, tr)"
    and "iteration new_fe args i st = (Continue, st', evs)" and "tr' = tr @ evs"
  using assms by (auto split: option.splits prod.splits flow.splits)

text \<open>
  The loop head reached for pass \<open>i\<close> is where \<^verbatim>\<open>main\<close> stands after \<open>i\<close> passes:
  the rest of the run is the loop started there.
\<close>

lemma main_from_loop_entry:
  "loop_entry new_fe args i = Some (st, tr) \<Longrightarrow>
   main new_fe args (i + n) = main_loop n new_fe args i st tr"
proof (induction i arbitrary: st tr n)
  case 0
  then show ?case by (simp add: main_def)
next
  case (Suc i)
  from Suc.prems obtain st0 tr0 evs where le: "loop_entry new_fe args i = Some (st0, tr0)"
    and it: "iteration new_fe args i st0 = (Continue, st, evs)" and tr: "tr = tr0 @ evs"
    by (rule loop_entry_Suc)
  from Suc.IH [OF le, of "Suc n"] it tr show ?case by simp
qed

text \<open>
  The loop only goes round through the end of the handler, so after the first pass
  \<^verbatim>\<open>fe_server\<close> names a resilient object and \<^verbatim>\<open>net_conf\<close> holds a configuration.
\<close>

lemma carried_session_resilient:
  assumes "loop_entry new_fe args (Suc i) = Some (st, tr)"
  shows "\<exists>fe nc. fe_server st = Some fe \<and> resilient fe \<and> net_conf st = Some nc"
proof -
  from assms obtain st0 tr0 evs where "loop_entry new_fe args i = Some (st0, tr0)"
    and "iteration new_fe args i st0 = (Continue, st, evs)"
    by (rule loop_entry_Suc)
  then show ?thesis by (blast dest: continue_needs_resilient)
qed

text \<open>
  When the loop test is reached after at least one pass, \<^verbatim>\<open>fe_server\<close> names the
  object of the latest pass that acquired one, and that object has been released.
\<close>

lemma loop_entry_session:
  "loop_entry new_fe args (Suc i) = Some (st, tr) \<Longrightarrow>
   \<exists>j fe. j \<le> i \<and> new_fe args j = Inr fe \<and> (\<forall>k. j < k \<and> k \<le> i \<longrightarrow> isl (new_fe args k))
     \<and> fe_server st = Some fe \<and> Released j \<in> set tr"
proof (induction i arbitrary: st tr)
  case 0
  from "0.prems" have it: "iteration new_fe args 0 initial_frame = (Continue, st, tr)"
    by (auto split: prod.splits flow.splits)
  show ?case
  proof (cases "new_fe args 0")
    case (Inl e)
    with it show ?thesis
      by (simp add: iteration_not_acquired except_handler_def initial_frame_def)
  next
    case (Inr fe)
    from iteration_acquired [OF Inr it] Inr show ?thesis by auto
  qed
next
  case (Suc i)
  from Suc.prems obtain st0 tr0 evs where le: "loop_entry new_fe args (Suc i) = Some (st0, tr0)"
    and it: "iteration new_fe args (Suc i) st0 = (Continue, st, evs)" and tr: "tr = tr0 @ evs"
    by (rule loop_entry_Suc)
  show ?case
  proof (cases "new_fe args (Suc i)")
    case (Inl e)
    from Suc.IH [OF le] obtain j fe where j: "j \<le> i" "new_fe args j = Inr fe"
      "\<forall>k. j < k \<and> k \<le> i \<longrightarrow> isl (new_fe args k)" "fe_server st0 = Some fe" "Released j \<in> set tr0"
      by blast
    from it Inl have same: "st = st0" by (simp add: iteration_not_acquired)
    have "\<forall>k. j < k \<and> k \<le> Suc i \<longrightarrow> isl (new_fe args k)"
      using j(3) Inl by (auto simp: le_Suc_eq)
    with j same tr show ?thesis
      by (intro exI [of _ j] exI [of _ fe]) auto
  next
    case (Inr fe)
    from iteration_acquired [OF Inr it] tr Inr show ?thesis
      by (intro exI [of _ "Suc i"] exI [of _ fe]) auto
  qed
qed

text \<open>
  Claim C9. When the construction of the front-end object raises on the second or a
  later pass, nothing is assigned to \<^verbatim>\<open>fe_server\<close>: the handler reads
  \<^verbatim>\<open>resilient\<close> from the object of the latest earlier pass that acquired one (on the
  second pass: the first pass), which has been released already, and decides between
  abort and retry from that flag and the configuration carried over.
\<close>

theorem construction_failure_reads_stale_session:
  assumes "loop_entry new_fe args i = Some (st, tr)" and "0 < i" and "new_fe args i = Inl e"
  shows "\<exists>j fe. j < i \<and> new_fe args j = Inr fe \<and> (\<forall>k. j < k \<and> k < i \<longrightarrow> isl (new_fe args k))
           \<and> fe_server st = Some fe \<and> Released j \<in> set tr
           \<and> iteration new_fe args i st =
               (if \<not> resilient fe then Return LAUNCHER_FAIL_EXIT
                else (case net_conf st of
                        None \<Rightarrow> Raise AttributeError
                      | Some nc \<Rightarrow>
                          if exhaust_resources args then
                            (if avail_nodes nc = 0 then Return LAUNCHER_FAIL_EXIT else Continue)
                          else if avail_nodes nc = node_count args - 1 then Return LAUNCHER_FAIL_EXIT
                          else Continue),
                st, [AcquireFailed i e])"
proof -
  from assms(2) obtain i0 where i: "i = Suc i0" by (cases i) auto
  from loop_entry_session [OF assms(1) [unfolded i]] obtain j fe where j: "j \<le> i0" "new_fe args j = Inr fe"
      "\<forall>k. j < k \<and> k \<le> i0 \<longrightarrow> isl (new_fe args k)" "fe_server st = Some fe" "Released j \<in> set tr"
    by blast
  have "iteration new_fe args i st = (except_handler args st, st, [AcquireFailed i e])"
    using assms(3) by (rule iteration_not_acquired)
  with j i show ?thesis
    by (intro exI [of _ j] exI [of _ fe]) (auto simp: except_handler_bound less_Suc_eq_le)
qed

text \<open>
  The theorem at a run whose first pass fails in \<^verbatim>\<open>run_app\<close> and retries, and
  whose second construction raises: the first object's flag is read, and the loop
  retries again.
\<close>

theorem construction_failure_reads_stale_session_witness:
  "\<exists>j fe. j < Suc 0
     \<and> launch_script [Inr (app_fails True demo_conf), Inl (LauncherError ''init'')]
          \<lparr>exhaust_resources = True, node_count = 3\<rparr> j = Inr fe
     \<and> fe_server \<lparr>fe_server = Some (app_fails True demo_conf), net_conf = Some demo_conf\<rparr> = Some fe
     \<and> Released j \<in> set [Acquired 0, RunStartup 0 None (Inr demo_conf),
                           RunApp 0 (Inl (LauncherError ''app'')), Released 0]
     \<and> fst (iteration (launch_script [Inr (app_fails True demo_conf), Inl (LauncherError ''init'')])
              \<lparr>exhaust_resources = True, node_count = 3\<rparr> (Suc 0)
              \<lparr>fe_server = Some (app_fails True demo_conf), net_conf = Some demo_conf\<rparr>) = Continue"
proof -
  let ?l = "launch_script [Inr (app_fails True demo_conf), Inl (LauncherError ''init'')]"
  let ?a = "\<lparr>exhaust_resources = True, node_count = 3\<rparr>"
  let ?st = "\<lparr>fe_server = Some (app_fails True demo_conf), net_conf = Some demo_conf\<rparr>"
  let ?tr = "[Acquired 0, RunStartup 0 None (Inr demo_conf), RunApp 0 (Inl (LauncherError ''app'')), Released 0]"
  have le: "loop_entry ?l ?a (Suc 0) = Some (?st, ?tr)"
    by (simp add: fixture_defs)
  have pos: "0 < Suc 0" by simp
  have f: "?l ?a (Suc 0) = Inl (LauncherError ''init'')"
    by (simp add: launch_script_def)
  have n: "avail_nodes demo_conf = 2"
    by (simp add: avail_nodes_def demo_conf_def)
  from construction_failure_reads_stale_session [OF le pos f]
  obtain j fe where "j < Suc 0" "?l ?a j = Inr fe" "fe_server ?st = Some fe" "Released j \<in> set ?tr"
    "iteration ?l ?a (Suc 0) ?st =
       (if \<not> resilient fe then Return LAUNCHER_FAIL_EXIT
        else (case net_conf ?st of
                None \<Rightarrow> Raise AttributeError
              | Some nc \<Rightarrow>
                  if exhaust_resources ?a then
                    (if avail_nodes nc = 0 then Return LAUNCHER_FAIL_EXIT else Continue)
                  else if avail_nodes nc = node_count ?a - 1 then Return LAUNCHER_FAIL_EXIT
                  else Continue),
        ?st, [AcquireFailed (Suc 0) (LauncherError ''init'')])"
    by blast
  moreover from this have "fe = app_fails True demo_conf"
    by (simp add: launch_script_def)
  moreover have "resilient (app_fails True demo_conf)"
    by (simp add: app_fails_def scripted_fe_def)
  ultimately show ?thesis
    by (intro exI [of _ j] exI [of _ fe]) (simp add: n)
qed

text \<open>
  Claim C3 says that a construction failure is fatal: \<^verbatim>\<open>main\<close> ends with the failure
  code, without classification or retry. The code does neither. A construction that
  raises on the second pass is classified with the first pass's object and
  configuration and retried, and the run below ends with the success code; a
  construction that raises on the first pass makes the handler raise
  \<^verbatim>\<open>UnboundLocalError\<close>, which leaves \<^verbatim>\<open>main\<close>.
\<close>

theorem construction_failure_retried:
  "main (launch_script [Inr (app_fails True demo_conf), Inl (LauncherError ''init''), Inr all_phases_succeed])
        \<lparr>exhaust_resources = True, node_count = 3\<rparr> (Suc (Suc (Suc 0))) =
     (Some (Inr LAUNCHER_SUCCESS_EXIT),
      [Acquired 0, RunStartup 0 None (Inr demo_conf), RunApp 0 (Inl (LauncherError ''app'')), Released 0,
       AcquireFailed (Suc 0) (LauncherError ''init''),
       Acquired (Suc (Suc 0)), RunStartup (Suc (Suc 0)) (Some demo_conf) (Inr demo_conf),
       RunApp (Suc (Suc 0)) (Inr demo_conf), RunMsgServer (Suc (Suc 0)) (Inr demo_conf),
       Released (Suc (Suc 0))])
   \<and> main (launch_script [Inl (LauncherError ''init'')]) \<lparr>exhaust_resources = True, node_count = 3\<rparr> (Suc 0) =
     (Some (Inl UnboundLocalError), [AcquireFailed 0 (LauncherError ''init'')])"
  by (simp add: main_def fixture_defs)

subsection \<open>Exceptions that leave main\<close>

text \<open>
  Claim C1 says that a phase failure under the resilient policy while \<^verbatim>\<open>net_conf\<close>
  is still \<^verbatim>\<open>None\<close> counts as no node available, without a further error. In the
  code the handler calls \<^verbatim>\<open>net_conf.items()\<close> on \<^verbatim>\<open>None\<close>: when the first
  \<^verbatim>\<open>run_startup\<close> of a resilient front end raises, \<^verbatim>\<open>main\<close> ends with
  \<^verbatim>\<open>AttributeError\<close>, in either mode and for every \<^verbatim>\<open>node_count\<close>.
\<close>

theorem null_configuration_raises:
  "main (launch_script [Inr startup_fails]) args (Suc n) =
     (Some (Inl AttributeError),
      [Acquired 0, RunStartup 0 None (Inl (LauncherError ''startup'')), Released 0])"
  by (simp add: main_def fixture_defs)

text \<open>
  Claim C4 says that \<^verbatim>\<open>main\<close> always returns one of the two exit codes and lets
  no exception escape. The run in which the first \<^verbatim>\<open>run_startup\<close> raises ends with
  an exception instead of an exit code, in exhaust-resources mode and in threshold
  mode.
\<close>

theorem exception_escapes_main:
  "fst (main (launch_script [Inr startup_fails]) \<lparr>exhaust_resources = True, node_count = 2\<rparr> (Suc 0)) =
     Some (Inl AttributeError)
   \<and> fst (main (launch_script [Inr startup_fails]) \<lparr>exhaust_resources = False, node_count = 2\<rparr> (Suc 0)) =
     Some (Inl AttributeError)"
  by (simp add: main_def fixture_defs)

end
